theory Spec2Isabelle
  imports Main "HOL-Library.AList"
begin

section \<open>The response parser of \<open>CodeReviewAgent\<close>\<close>

text \<open>
  A shallow embedding of \<^verbatim>\<open>src/agents/code_reviewer.py\<close>: the methods
  \<^verbatim>\<open>_parse_response\<close>, \<^verbatim>\<open>_extract_issues\<close>, \<^verbatim>\<open>_extract_suggestions\<close> and
  \<^verbatim>\<open>_calculate_complexity\<close>, together with the string operations of Python they call.
  Isabelle names cannot start with an underscore, so the leading underscore of the
  method names is dropped.

  A Python \<^verbatim>\<open>str\<close> is modelled as a \<^typ>\<open>string\<close>; each \<^typ>\<open>char\<close> stands for one code
  point below 256.
\<close>

subsection \<open>Python values\<close>

text \<open>
  The values stored in an issue dictionary are strings and integers. A dictionary is an
  association list in insertion order; assigning to a key that is present keeps its
  position, as in Python.
\<close>

datatype pyval = PyStr string | PyInt int

type_synonym pydict = "(string \<times> pyval) list"

text \<open>
  What the caller can hand to the parser as \<^verbatim>\<open>response\<close>: the parameter carries no type
  annotation. A \<^verbatim>\<open>str\<close> is what a \<^verbatim>\<open>BaseLLM\<close> chain returns; \<^verbatim>\<open>bytes\<close> and \<^verbatim>\<open>None\<close> are the
  shapes for which \<^verbatim>\<open>response.split('\n')\<close> raises.
\<close>

datatype response = Str string | Bytes string | NoneValue

text \<open>Exceptions (all subclasses of \<^verbatim>\<open>Exception\<close>), each with the text \<^verbatim>\<open>str(e)\<close> gives.\<close>

datatype exn = AttributeError string | TypeError string

fun exn_str :: "exn \<Rightarrow> string" where
  "exn_str (AttributeError m) = m"
| "exn_str (TypeError m) = m"

subsection \<open>String operations\<close>

text \<open>\<^verbatim>\<open>s.split(sep)\<close> for a one-character separator: the empty string gives one empty piece.\<close>

fun py_split :: "char \<Rightarrow> string \<Rightarrow> string list" where
  "py_split sep [] = [[]]"
| "py_split sep (c # cs) =
     (if c = sep then [] # py_split sep cs
      else (case py_split sep cs of
              [] \<Rightarrow> [[c]]
            | l # ls \<Rightarrow> (c # l) # ls))"

text \<open>
  \<^verbatim>\<open>response.split('\n')\<close>: \<^verbatim>\<open>None\<close> has no attribute \<^verbatim>\<open>split\<close>, and \<^verbatim>\<open>bytes.split\<close> refuses a
  \<^verbatim>\<open>str\<close> separator.
\<close>

fun response_split :: "response \<Rightarrow> exn + string list" where
  "response_split (Str s) = Inr (py_split (CHR 0x0A) s)"
| "response_split (Bytes b) =
     Inl (TypeError (''a bytes-like object is required, not '' @ [CHR 0x27] @ ''str'' @ [CHR 0x27]))"
| "response_split NoneValue =
     Inl (AttributeError ([CHR 0x27] @ ''NoneType'' @ [CHR 0x27] @ '' object has no attribute ''
                          @ [CHR 0x27] @ ''split'' @ [CHR 0x27]))"

text \<open>
  The code points below 256 that \<^verbatim>\<open>str.strip()\<close> removes: tab to carriage return, the
  four separators 0x1C to 0x1F, space, NEL (0x85) and the no-break space (0xA0).
\<close>

definition isspace :: "char \<Rightarrow> bool" where
  "isspace c = ((of_char c :: nat) \<in> set [9, 10, 11, 12, 13, 28, 29, 30, 31, 32, 133, 160])"

definition py_strip :: "string \<Rightarrow> string" where
  "py_strip s = rev (dropWhile isspace (rev (dropWhile isspace s)))"

definition startswith :: "string \<Rightarrow> string \<Rightarrow> bool" where
  "startswith s p = (take (length p) s = p)"

subsection \<open>\<^verbatim>\<open>int(s)\<close> on a string\<close>

text \<open>
  \<^verbatim>\<open>int\<close> skips surrounding whitespace, reads an optional sign and then decimal digits,
  where single underscores may stand between digits. Everything else raises
  \<^verbatim>\<open>ValueError\<close>, the only exception \<^verbatim>\<open>int\<close> raises on a \<^verbatim>\<open>str\<close>: the result \<open>None\<close>. Below
  code point 256 the decimal digits are \<^verbatim>\<open>0\<close> to \<^verbatim>\<open>9\<close>. CPython also raises \<^verbatim>\<open>ValueError\<close>
  for more than \<^verbatim>\<open>sys.int_max_str_digits\<close> digits (4300 unless reconfigured).
  In the source the argument of \<^verbatim>\<open>int\<close> is always the result of \<^verbatim>\<open>strip()\<close>, so that no
  surrounding whitespace is left for \<^verbatim>\<open>int\<close> to skip; the model skips what \<^verbatim>\<open>strip()\<close> removes.
\<close>

definition isdigit :: "char \<Rightarrow> bool" where
  "isdigit c = (48 \<le> (of_char c :: nat) \<and> (of_char c :: nat) \<le> 57)"

definition digit_value :: "char \<Rightarrow> int" where
  "digit_value c = int (of_char c) - 48"

fun digits_ok :: "string \<Rightarrow> bool" where
  "digits_ok [] = False"
| "digits_ok [c] = isdigit c"
| "digits_ok (c # d # cs) =
     (isdigit c \<and> (if d = CHR ''_'' then digits_ok cs else digits_ok (d # cs)))"

definition int_max_str_digits :: nat where
  "int_max_str_digits = 4300"

definition py_int :: "string \<Rightarrow> int option" where
  "py_int s =
     (let t = py_strip s;
          neg = (case t of [] \<Rightarrow> False | c # r \<Rightarrow> c = CHR ''-'');
          body = (case t of [] \<Rightarrow> [] | c # r \<Rightarrow> if c = CHR ''-'' \<or> c = CHR ''+'' then r else t);
          ds = filter (\<lambda>c. c \<noteq> CHR ''_'') body
      in if \<not> digits_ok body \<or> int_max_str_digits < length ds then None
         else let n = foldl (\<lambda>a c. 10 * a + digit_value c) 0 ds
              in Some (if neg then - n else n))"

subsection \<open>\<^verbatim>\<open>_extract_issues\<close>\<close>

text \<open>
  The loop state: the list \<^verbatim>\<open>issues\<close> and \<^verbatim>\<open>current_issue\<close>, which is \<^verbatim>\<open>None\<close> or a
  dictionary. \<^verbatim>\<open>if current_issue:\<close> tests truthiness: not \<^verbatim>\<open>None\<close> and not the empty
  dictionary.
\<close>

type_synonym scan_state = "pydict list \<times> pydict option"

fun truthy :: "pydict option \<Rightarrow> bool" where
  "truthy None = False"
| "truthy (Some d) = (d \<noteq> [])"

text \<open>\<^verbatim>\<open>if current_issue: issues.append(current_issue)\<close> (lines 70-71 and 81-82).\<close>

fun append_current :: "pydict list \<Rightarrow> pydict option \<Rightarrow> pydict list" where
  "append_current issues None = issues"
| "append_current issues (Some d) = (if d \<noteq> [] then issues @ [d] else issues)"

text \<open>
  Lines 74-77: \<^verbatim>\<open>int(line[5:].strip())\<close>, with \<^verbatim>\<open>0\<close> when \<^verbatim>\<open>int\<close> raises \<^verbatim>\<open>ValueError\<close>.
\<close>

definition line_value :: "string \<Rightarrow> int" where
  "line_value line = (case py_int (py_strip (drop 5 line)) of Some n \<Rightarrow> n | None \<Rightarrow> 0)"

text \<open>One iteration of the \<^verbatim>\<open>for\<close> loop (lines 69-79).\<close>

fun scan_line :: "scan_state \<Rightarrow> string \<Rightarrow> scan_state" where
  "scan_line (issues, current_issue) line =
     (if startswith line ''Issue:'' then
        (append_current issues current_issue,
         Some [(''description'', PyStr (py_strip (drop 6 line)))])
      else if startswith line ''Line:'' \<and> truthy current_issue then
        (issues, map_option (AList.update ''line'' (PyInt (line_value line))) current_issue)
      else if startswith line ''Suggestion:'' \<and> truthy current_issue then
        (issues,
         map_option (AList.update ''suggestion'' (PyStr (py_strip (drop 11 line)))) current_issue)
      else (issues, current_issue))"

text \<open>The loop over the lines, from the initial state, and the final append (lines 64-84).\<close>

definition scan_lines :: "string list \<Rightarrow> pydict list" where
  "scan_lines lines =
     (case foldl scan_line ([], None) lines of
        (issues, current_issue) \<Rightarrow> append_current issues current_issue)"

text \<open>
  The body of the \<^verbatim>\<open>try\<close> (lines 64-84): \<^verbatim>\<open>response.split\<close> may raise, the loop cannot. A
  dictionary that was appended to \<^verbatim>\<open>issues\<close> is never assigned to again, since
  \<^verbatim>\<open>current_issue\<close> is bound to a new dictionary right after the append, so that values
  model the shared objects faithfully.
\<close>

definition try_body :: "response \<Rightarrow> exn + pydict list" where
  "try_body response =
     (case response_split response of
        Inl e \<Rightarrow> Inl e
      | Inr lines \<Rightarrow> Inr (scan_lines lines))"

text \<open>
  The whole method: the result and the lines printed. An exception of the \<^verbatim>\<open>try\<close> body
  is caught by \<^verbatim>\<open>except Exception\<close>, printed, and replaced by the empty list.
\<close>

definition extract_issues :: "response \<Rightarrow> pydict list \<times> string list" where
  "extract_issues response =
     (case try_body response of
        Inr found \<Rightarrow> (found, [])
      | Inl e \<Rightarrow> ([], [''Error parsing issues: '' @ exn_str e]))"

subsection \<open>\<^verbatim>\<open>_parse_response\<close> and the two stubs\<close>

definition extract_suggestions :: "response \<Rightarrow> pydict list" where
  "extract_suggestions response = []"

definition calculate_complexity :: "response \<Rightarrow> int" where
  "calculate_complexity response = 0"

record analysis =
  issues :: "pydict list"
  suggestions :: "pydict list"
  complexity_score :: int

text \<open>The result dictionary with its three fixed keys, and the lines printed.\<close>

definition parse_response :: "response \<Rightarrow> analysis \<times> string list" where
  "parse_response response =
     (case extract_issues response of
        (found, printed) \<Rightarrow>
          (\<lparr>issues = found,
            suggestions = extract_suggestions response,
            complexity_score = calculate_complexity response\<rparr>, printed))"

subsection \<open>Notions used to state the properties\<close>

text \<open>
  A block of the input: the lines \<open>lines\<close> are \<open>pre\<close>, then a line \<open>l\<close> that starts with
  \<^verbatim>\<open>Issue:\<close>, then the lines \<open>blk\<close> of which none starts with \<^verbatim>\<open>Issue:\<close>, then \<open>rest\<close>, which
  is empty or begins with the next \<^verbatim>\<open>Issue:\<close> line.
\<close>

definition block_at :: "string list \<Rightarrow> string list \<Rightarrow> string \<Rightarrow> string list \<Rightarrow> string list \<Rightarrow> bool" where
  "block_at lines pre l blk rest =
     (lines = pre @ l # blk @ rest \<and> startswith l ''Issue:''
      \<and> \<not> list_ex (\<lambda>x. startswith x ''Issue:'') blk
      \<and> (case rest of [] \<Rightarrow> True | r # _ \<Rightarrow> startswith r ''Issue:''))"

text \<open>Lower case of the letters \<^verbatim>\<open>A\<close> to \<^verbatim>\<open>Z\<close>, to compare two texts up to letter case.\<close>

definition ascii_lower :: "char \<Rightarrow> char" where
  "ascii_lower c =
     (if 65 \<le> (of_char c :: nat) \<and> (of_char c :: nat) \<le> 90 then char_of (of_char c + (32 :: nat)) else c)"

section \<open>Properties\<close>

lemma parse_response_fields:
  "issues (fst (parse_response r)) = fst (extract_issues r)"
  "suggestions (fst (parse_response r)) = []"
  "complexity_score (fst (parse_response r)) = 0"
  "snd (parse_response r) = snd (extract_issues r)"
  by (simp_all add: parse_response_def extract_suggestions_def calculate_complexity_def
      split: prod.splits)

text \<open>
  C1. For the input \<^verbatim>\<open>"Issue: foo\nLine: 12\nSuggestion: bar\n"\<close> the parser returns exactly
  one issue, with description \<^verbatim>\<open>foo\<close>, line 12 and suggestion \<^verbatim>\<open>bar\<close>; the description and
  the suggestion are the rest of their lines after the prefix, stripped. Nothing is
  printed.
\<close>

theorem parse_example_one_issue:
  "parse_response (Str ''Issue: foo\<newline>Line: 12\<newline>Suggestion: bar\<newline>'') =
     (\<lparr>issues = [[(''description'', PyStr ''foo''), (''line'', PyInt 12),
                  (''suggestion'', PyStr ''bar'')]],
       suggestions = [], complexity_score = 0\<rparr>, [])
   \<and> py_strip (drop 6 ''Issue: foo'') = ''foo''
   \<and> py_strip (drop 11 ''Suggestion: bar'') = ''bar''"
  by code_simp

text \<open>
  C2. For every input, the empty string among them, the field \<^verbatim>\<open>suggestions\<close> of the result
  is the empty list and the field \<^verbatim>\<open>complexity_score\<close> is 0.
\<close>

theorem stubs_constant:
  "suggestions (fst (parse_response r)) = []
   \<and> complexity_score (fst (parse_response r)) = 0
   \<and> suggestions (fst (parse_response (Str ''''))) = []
   \<and> complexity_score (fst (parse_response (Str ''''))) = 0"
  by (simp add: parse_response_fields)

subsection \<open>Splitting and the scan, compositionally\<close>

lemma py_split_nonempty: "py_split c s \<noteq> []"
  by (induction s) (auto split: list.splits)

lemma py_split_append: "py_split c (a @ c # b) = py_split c a @ py_split c b"
proof (induction a)
  case Nil
  show ?case by simp
next
  case (Cons x a)
  show ?case
  proof (cases "x = c")
    case True
    with Cons show ?thesis by simp
  next
    case False
    obtain l ls where sp: "py_split c a = l # ls"
      using py_split_nonempty [of c a] by (cases "py_split c a") auto
    with False Cons show ?thesis by simp
  qed
qed

lemma py_split_no_sep:
  "c \<notin> set p \<Longrightarrow> py_split c (p @ t) = (p @ hd (py_split c t)) # tl (py_split c t)"
proof (induction p)
  case Nil
  then show ?case using py_split_nonempty [of c t] by simp
next
  case (Cons x p)
  then show ?case by auto
qed

lemma startswith_append: "startswith s p \<longleftrightarrow> (\<exists>t. s = p @ t)"
  unfolding startswith_def
  by (metis append_eq_conv_conj append_take_drop_id)

lemma startswith_first_line:
  assumes "c \<notin> set p" "startswith s p"
  shows "startswith (hd (py_split c s)) p"
proof -
  from assms(2) obtain t where "s = p @ t" by (auto simp: startswith_append)
  with assms(1) show ?thesis
    by (simp add: py_split_no_sep startswith_def)
qed

lemma append_current_append:
  "append_current (p @ q) c = p @ append_current q c"
  by (cases c) auto

lemma scan_line_shift:
  "scan_line (p @ q, c) l = (p @ fst (scan_line (q, c) l), snd (scan_line (q, c) l))"
  by (simp add: append_current_append)

lemma foldl_scan_shift:
  "foldl scan_line (p @ q, c) ls =
     (p @ fst (foldl scan_line (q, c) ls), snd (foldl scan_line (q, c) ls))"
proof (induction ls arbitrary: q c)
  case Nil
  show ?case by simp
next
  case (Cons l ls)
  obtain q' c' where st: "scan_line (q, c) l = (q', c')" by (cases "scan_line (q, c) l")
  have "scan_line (p @ q, c) l = (p @ q', c')"
    using scan_line_shift [of p q c l] st by simp
  with st Cons.IH [of q' c'] show ?case by simp
qed

lemma scan_lines_Nil: "scan_lines [] = []"
  by (simp add: scan_lines_def)

lemma scan_lines_append:
  assumes "case ys of [] \<Rightarrow> True | y # _ \<Rightarrow> startswith y ''Issue:''"
  shows "scan_lines (xs @ ys) = scan_lines xs @ scan_lines ys"
proof (cases ys)
  case Nil
  then show ?thesis by (simp add: scan_lines_Nil)
next
  case (Cons y ys')
  with assms have y: "startswith y ''Issue:''" by simp
  obtain a c where st: "foldl scan_line ([], None) xs = (a, c)"
    by (cases "foldl scan_line ([], None) xs")
  let ?new = "Some [(''description'', PyStr (py_strip (drop 6 y)))]"
  have one: "scan_lines xs = append_current a c"
    by (simp add: scan_lines_def st)
  have "foldl scan_line ([], None) (xs @ ys) = foldl scan_line (append_current a c @ [], ?new) ys'"
    using st y Cons by simp
  also have "\<dots> = (append_current a c @ fst (foldl scan_line ([], ?new) ys'),
                   snd (foldl scan_line ([], ?new) ys'))"
    by (rule foldl_scan_shift)
  finally have two: "scan_lines (xs @ ys) =
      append_current a c @ append_current (fst (foldl scan_line ([], ?new) ys'))
                                           (snd (foldl scan_line ([], ?new) ys'))"
    by (simp add: scan_lines_def append_current_append)
  have "foldl scan_line ([], None) ys = foldl scan_line ([], ?new) ys'"
    using y Cons by simp
  then have three: "scan_lines ys = append_current (fst (foldl scan_line ([], ?new) ys'))
                                           (snd (foldl scan_line ([], ?new) ys'))"
    by (simp add: scan_lines_def split: prod.splits)
  from one two three show ?thesis by simp
qed


lemma startswith_Cons: "startswith l (c # p) \<Longrightarrow> \<exists>t. l = c # t"
  by (cases l) (auto simp: startswith_def)

lemma block_state:
  assumes "d \<noteq> []" "\<not> list_ex (\<lambda>x. startswith x ''Issue:'') blk"
  shows "\<exists>d'. foldl scan_line (iss, Some d) blk = (iss, Some d') \<and> d' \<noteq> []
     \<and> map_of d' ''description'' = map_of d ''description''
     \<and> map_of d' ''line'' =
         (if list_ex (\<lambda>x. startswith x ''Line:'') blk
          then Some (PyInt (line_value (last (filter (\<lambda>x. startswith x ''Line:'') blk))))
          else map_of d ''line'')
     \<and> map_of d' ''suggestion'' =
         (if list_ex (\<lambda>x. startswith x ''Suggestion:'') blk
          then Some (PyStr (py_strip (drop 11
                 (last (filter (\<lambda>x. startswith x ''Suggestion:'') blk)))))
          else map_of d ''suggestion'')"
  using assms(2)
proof (induction blk rule: rev_induct)
  case Nil
  with assms(1) show ?case by simp
next
  case (snoc l blk)
  then have no: "\<not> list_ex (\<lambda>x. startswith x ''Issue:'') blk" and l: "\<not> startswith l ''Issue:''"
    by simp_all
  from snoc.IH [OF no] obtain d1 where
    st: "foldl scan_line (iss, Some d) blk = (iss, Some d1)" and ne: "d1 \<noteq> []"
    and de: "map_of d1 ''description'' = map_of d ''description''"
    and li: "map_of d1 ''line'' =
         (if list_ex (\<lambda>x. startswith x ''Line:'') blk
          then Some (PyInt (line_value (last (filter (\<lambda>x. startswith x ''Line:'') blk))))
          else map_of d ''line'')"
    and su: "map_of d1 ''suggestion'' =
         (if list_ex (\<lambda>x. startswith x ''Suggestion:'') blk
          then Some (PyStr (py_strip (drop 11
                 (last (filter (\<lambda>x. startswith x ''Suggestion:'') blk)))))
          else map_of d ''suggestion'')"
    by blast
  have excl: "\<not> (startswith l ''Line:'' \<and> startswith l ''Suggestion:'')"
    by (auto dest!: startswith_Cons)
  have step: "foldl scan_line (iss, Some d) (blk @ [l]) = scan_line (iss, Some d1) l"
    using st by simp
  consider (line) "startswith l ''Line:''"
    | (sugg) "\<not> startswith l ''Line:''" "startswith l ''Suggestion:''"
    | (other) "\<not> startswith l ''Line:''" "\<not> startswith l ''Suggestion:''"
    by blast
  then show ?case
  proof cases
    case line
    with excl have ns: "\<not> startswith l ''Suggestion:''" by blast
    show ?thesis
      unfolding step using l line ns ne de li su
      by (simp add: AList.update_conv')
  next
    case sugg
    show ?thesis
      unfolding step using l sugg ne de li su
      by (simp add: AList.update_conv')
  next
    case other
    show ?thesis
      unfolding step using l other ne de li su
      by simp
  qed
qed

lemma block_issue:
  assumes "block_at lines pre l blk rest"
  shows "\<exists>d. scan_lines lines = scan_lines pre @ [d] @ scan_lines rest
     \<and> foldl scan_line ([], None) (l # blk) = ([], Some d)
     \<and> map_of d ''description'' = Some (PyStr (py_strip (drop 6 l)))
     \<and> map_of d ''line'' =
         (if list_ex (\<lambda>x. startswith x ''Line:'') blk
          then Some (PyInt (line_value (last (filter (\<lambda>x. startswith x ''Line:'') blk))))
          else None)
     \<and> map_of d ''suggestion'' =
         (if list_ex (\<lambda>x. startswith x ''Suggestion:'') blk
          then Some (PyStr (py_strip (drop 11
                 (last (filter (\<lambda>x. startswith x ''Suggestion:'') blk)))))
          else None)"
proof -
  from assms have eq: "lines = pre @ (l # blk) @ rest" and l: "startswith l ''Issue:''"
    and no: "\<not> list_ex (\<lambda>x. startswith x ''Issue:'') blk"
    and rest: "case rest of [] \<Rightarrow> True | r # _ \<Rightarrow> startswith r ''Issue:''"
    by (simp_all add: block_at_def)
  have a: "scan_lines ((l # blk) @ rest) = scan_lines (l # blk) @ scan_lines rest"
    using rest by (rule scan_lines_append)
  have b: "scan_lines lines = scan_lines pre @ scan_lines ((l # blk) @ rest)"
    unfolding eq using l by (intro scan_lines_append) simp
  let ?d0 = "[(''description'', PyStr (py_strip (drop 6 l)))]"
  from block_state [of ?d0 blk "[]", OF _ no] obtain d where
    st: "foldl scan_line ([], Some ?d0) blk = ([], Some d)" and ne: "d \<noteq> []"
    and f: "map_of d ''description'' = map_of ?d0 ''description''"
      "map_of d ''line'' =
         (if list_ex (\<lambda>x. startswith x ''Line:'') blk
          then Some (PyInt (line_value (last (filter (\<lambda>x. startswith x ''Line:'') blk))))
          else map_of ?d0 ''line'')"
      "map_of d ''suggestion'' =
         (if list_ex (\<lambda>x. startswith x ''Suggestion:'') blk
          then Some (PyStr (py_strip (drop 11
                 (last (filter (\<lambda>x. startswith x ''Suggestion:'') blk)))))
          else map_of ?d0 ''suggestion'')"
    by blast
  have run: "foldl scan_line ([], None) (l # blk) = ([], Some d)"
    using l st by simp
  then have c: "scan_lines (l # blk) = [d]"
    using ne by (simp add: scan_lines_def)
  from a b c run f show ?thesis by simp
qed

subsection \<open>Exceptions and order\<close>

lemma extract_issues_Str:
  "extract_issues (Str s) = (scan_lines (py_split (CHR 0x0A) s), [])"
  by (simp add: extract_issues_def try_body_def)

text \<open>
  C3. When the body of the \<^verbatim>\<open>try\<close> raises (a failing \<^verbatim>\<open>int\<close> is handled inside the loop and
  never leaves it), the exception is caught: the method returns the empty list of issues,
  having printed one line, and the result dictionary carries no issue. This happens only
  for a response that is not a \<^verbatim>\<open>str\<close>, where \<^verbatim>\<open>response.split\<close> raises.
\<close>

theorem scan_exception_caught:
  "try_body r = Inl e \<Longrightarrow>
     extract_issues r = ([], [''Error parsing issues: '' @ exn_str e])
     \<and> issues (fst (parse_response r)) = []
     \<and> (\<forall>s. r \<noteq> Str s)"
  by (auto simp add: extract_issues_def try_body_def parse_response_fields)

theorem scan_exception_caught_witness:
  "try_body NoneValue =
     Inl (AttributeError ([CHR 0x27] @ ''NoneType'' @ [CHR 0x27] @ '' object has no attribute ''
                          @ [CHR 0x27] @ ''split'' @ [CHR 0x27]))
   \<and> extract_issues NoneValue =
       ([], [''Error parsing issues: '' @ [CHR 0x27] @ ''NoneType'' @ [CHR 0x27]
              @ '' object has no attribute '' @ [CHR 0x27] @ ''split'' @ [CHR 0x27]])
   \<and> issues (fst (parse_response NoneValue)) = []
   \<and> (\<forall>s. NoneValue \<noteq> Str s)"
  using scan_exception_caught [of NoneValue
      "AttributeError ([CHR 0x27] @ ''NoneType'' @ [CHR 0x27] @ '' object has no attribute ''
                          @ [CHR 0x27] @ ''split'' @ [CHR 0x27])"]
  by (simp add: try_body_def)

lemma scan_line_descr:
  assumes "c \<noteq> Some []" "scan_line (a, c) l = (a', c')"
  shows "c' \<noteq> Some [] \<and>
     map (\<lambda>d. map_of d ''description'') (append_current a' c') =
       map (\<lambda>d. map_of d ''description'') (append_current a c)
       @ (if startswith l ''Issue:'' then [Some (PyStr (py_strip (drop 6 l)))] else [])"
  using assms by (cases c) (auto simp: AList.update_conv' split: if_splits)

lemma foldl_scan_descr:
  assumes "c \<noteq> Some []" "foldl scan_line (a, c) ls = (a', c')"
  shows "c' \<noteq> Some [] \<and>
     map (\<lambda>d. map_of d ''description'') (append_current a' c') =
       map (\<lambda>d. map_of d ''description'') (append_current a c)
       @ map (\<lambda>l. Some (PyStr (py_strip (drop 6 l)))) (filter (\<lambda>l. startswith l ''Issue:'') ls)"
  using assms
proof (induction ls arbitrary: a c)
  case Nil
  then show ?case by simp
next
  case (Cons l ls)
  obtain a1 c1 where st: "scan_line (a, c) l = (a1, c1)" by (cases "scan_line (a, c) l")
  from scan_line_descr [OF Cons.prems(1) st] have
    ok: "c1 \<noteq> Some []" and
    d1: "map (\<lambda>d. map_of d ''description'') (append_current a1 c1) =
       map (\<lambda>d. map_of d ''description'') (append_current a c)
       @ (if startswith l ''Issue:'' then [Some (PyStr (py_strip (drop 6 l)))] else [])"
    by simp_all
  from Cons.prems(2) st have "foldl scan_line (a1, c1) ls = (a', c')" by simp
  from Cons.IH [OF ok this] d1 show ?case by simp
qed

lemma scan_lines_descr:
  "map (\<lambda>d. map_of d ''description'') (scan_lines ls) =
     map (\<lambda>l. Some (PyStr (py_strip (drop 6 l)))) (filter (\<lambda>l. startswith l ''Issue:'') ls)"
proof -
  obtain a c where st: "foldl scan_line ([], None) ls = (a, c)"
    by (cases "foldl scan_line ([], None) ls")
  from foldl_scan_descr [OF _ st] show ?thesis
    by (simp add: scan_lines_def st)
qed

text \<open>
  C5. The issues come out in the order of the \<^verbatim>\<open>Issue:\<close> lines of the input, one issue for
  each such line, with that line's description. A later block is independent of what
  precedes it: for a text \<open>s2\<close> that starts with \<^verbatim>\<open>Issue:\<close>, the issues of \<open>s1\<close>, a newline
  and \<open>s2\<close> are the issues of \<open>s1\<close> followed by the issues that \<open>s2\<close> yields alone, so no field
  set in an earlier block reaches a later issue.
\<close>

theorem issues_in_input_order:
  "map (\<lambda>d. map_of d ''description'') (fst (extract_issues (Str s))) =
     map (\<lambda>l. Some (PyStr (py_strip (drop 6 l))))
       (filter (\<lambda>l. startswith l ''Issue:'') (py_split (CHR 0x0A) s))
   \<and> (startswith s2 ''Issue:'' \<longrightarrow>
        fst (extract_issues (Str (s1 @ CHR 0x0A # s2))) =
          fst (extract_issues (Str s1)) @ fst (extract_issues (Str s2)))"
proof (intro conjI impI)
  show "map (\<lambda>d. map_of d ''description'') (fst (extract_issues (Str s))) =
     map (\<lambda>l. Some (PyStr (py_strip (drop 6 l))))
       (filter (\<lambda>l. startswith l ''Issue:'') (py_split (CHR 0x0A) s))"
    by (simp add: extract_issues_Str scan_lines_descr)
next
  assume "startswith s2 ''Issue:''"
  then have "startswith (hd (py_split (CHR 0x0A) s2)) ''Issue:''"
    by (intro startswith_first_line) simp_all
  then have "case py_split (CHR 0x0A) s2 of [] \<Rightarrow> True | y # _ \<Rightarrow> startswith y ''Issue:''"
    by (cases "py_split (CHR 0x0A) s2") simp_all
  from scan_lines_append [OF this]
  show "fst (extract_issues (Str (s1 @ CHR 0x0A # s2))) =
          fst (extract_issues (Str s1)) @ fst (extract_issues (Str s2))"
    by (simp add: extract_issues_Str py_split_append)
qed

theorem issues_in_input_order_witness:
  "startswith ''Issue: b\<newline>Line: 2'' ''Issue:''
   \<and> fst (extract_issues (Str (''Issue: a\<newline>Line: 1\<newline>Suggestion: x'' @ CHR 0x0A # ''Issue: b\<newline>Line: 2''))) =
       fst (extract_issues (Str ''Issue: a\<newline>Line: 1\<newline>Suggestion: x''))
       @ fst (extract_issues (Str ''Issue: b\<newline>Line: 2''))
   \<and> map (\<lambda>d. map_of d ''description'')
        (fst (extract_issues (Str ''Issue: a\<newline>Line: 1\<newline>Suggestion: x\<newline>Issue: b\<newline>Line: 2''))) =
      map (\<lambda>l. Some (PyStr (py_strip (drop 6 l))))
       (filter (\<lambda>l. startswith l ''Issue:'')
         (py_split (CHR 0x0A) ''Issue: a\<newline>Line: 1\<newline>Suggestion: x\<newline>Issue: b\<newline>Line: 2''))
   \<and> fst (extract_issues (Str ''Issue: a\<newline>Line: 1\<newline>Suggestion: x\<newline>Issue: b\<newline>Line: 2'')) =
       [[(''description'', PyStr ''a''), (''line'', PyInt 1), (''suggestion'', PyStr ''x'')],
        [(''description'', PyStr ''b''), (''line'', PyInt 2)]]"
proof -
  have h: "startswith ''Issue: b\<newline>Line: 2'' ''Issue:''" by code_simp
  have e: "fst (extract_issues (Str ''Issue: a\<newline>Line: 1\<newline>Suggestion: x\<newline>Issue: b\<newline>Line: 2'')) =
       [[(''description'', PyStr ''a''), (''line'', PyInt 1), (''suggestion'', PyStr ''x'')],
        [(''description'', PyStr ''b''), (''line'', PyInt 2)]]" by code_simp
  note t = issues_in_input_order [of "''Issue: a\<newline>Line: 1\<newline>Suggestion: x\<newline>Issue: b\<newline>Line: 2''"
      "''Issue: b\<newline>Line: 2''" "''Issue: a\<newline>Line: 1\<newline>Suggestion: x''"]
  from t have a: "map (\<lambda>d. map_of d ''description'')
        (fst (extract_issues (Str ''Issue: a\<newline>Line: 1\<newline>Suggestion: x\<newline>Issue: b\<newline>Line: 2''))) =
      map (\<lambda>l. Some (PyStr (py_strip (drop 6 l))))
       (filter (\<lambda>l. startswith l ''Issue:'')
         (py_split (CHR 0x0A) ''Issue: a\<newline>Line: 1\<newline>Suggestion: x\<newline>Issue: b\<newline>Line: 2''))"
    by (rule conjunct1)
  from t h have b: "fst (extract_issues (Str (''Issue: a\<newline>Line: 1\<newline>Suggestion: x'' @ CHR 0x0A # ''Issue: b\<newline>Line: 2''))) =
       fst (extract_issues (Str ''Issue: a\<newline>Line: 1\<newline>Suggestion: x''))
       @ fst (extract_issues (Str ''Issue: b\<newline>Line: 2''))"
    by (elim conjE impE)
  from h b a e show ?thesis by (intro conjI)
qed

subsection \<open>Blocks, ignored lines and prefixes\<close>

text \<open>
  C6. When the last line that starts with \<^verbatim>\<open>Issue:\<close> is followed only by lines that do not
  (the trailing block \<open>l # blk\<close>), the accumulator is still open at the end of the input,
  holding the record of that block, and the final append makes it the last element of
  the output.
\<close>

theorem trailing_block_emitted:
  assumes "py_split (CHR 0x0A) s = pre @ l # blk" "startswith l ''Issue:''"
    "\<not> list_ex (\<lambda>x. startswith x ''Issue:'') blk"
  shows "\<exists>d. foldl scan_line ([], None) (py_split (CHR 0x0A) s) = (scan_lines pre, Some d)
     \<and> d \<noteq> []
     \<and> map_of d ''description'' = Some (PyStr (py_strip (drop 6 l)))
     \<and> fst (extract_issues (Str s)) = scan_lines pre @ [d]
     \<and> last (fst (extract_issues (Str s))) = d"
proof -
  obtain a c where st: "foldl scan_line ([], None) pre = (a, c)"
    by (cases "foldl scan_line ([], None) pre")
  then have pre: "scan_lines pre = append_current a c"
    by (simp add: scan_lines_def)
  let ?d0 = "[(''description'', PyStr (py_strip (drop 6 l)))]"
  from block_state [of ?d0 blk "scan_lines pre", OF _ assms(3)] obtain d where
    run: "foldl scan_line (scan_lines pre, Some ?d0) blk = (scan_lines pre, Some d)"
    and ne: "d \<noteq> []" and de: "map_of d ''description'' = map_of ?d0 ''description''"
    by blast
  have all: "foldl scan_line ([], None) (py_split (CHR 0x0A) s) = (scan_lines pre, Some d)"
    using assms(1,2) st pre run by simp
  then have "scan_lines (py_split (CHR 0x0A) s) = scan_lines pre @ [d]"
    using ne by (simp add: scan_lines_def)
  with all ne de show ?thesis
    by (simp add: extract_issues_Str)
qed

theorem trailing_block_emitted_witness:
  "py_split (CHR 0x0A) ''Issue: a\<newline>Issue: b\<newline>Line: 7'' = [''Issue: a''] @ ''Issue: b'' # [''Line: 7'']
   \<and> startswith ''Issue: b'' ''Issue:''
   \<and> \<not> list_ex (\<lambda>x. startswith x ''Issue:'') [''Line: 7'']
   \<and> (\<exists>d. foldl scan_line ([], None) (py_split (CHR 0x0A) ''Issue: a\<newline>Issue: b\<newline>Line: 7'')
          = (scan_lines [''Issue: a''], Some d)
        \<and> d \<noteq> []
        \<and> map_of d ''description'' = Some (PyStr (py_strip (drop 6 ''Issue: b'')))
        \<and> fst (extract_issues (Str ''Issue: a\<newline>Issue: b\<newline>Line: 7'')) = scan_lines [''Issue: a''] @ [d]
        \<and> last (fst (extract_issues (Str ''Issue: a\<newline>Issue: b\<newline>Line: 7''))) = d)
   \<and> fst (extract_issues (Str ''Issue: a\<newline>Issue: b\<newline>Line: 7'')) =
       [[(''description'', PyStr ''a'')], [(''description'', PyStr ''b''), (''line'', PyInt 7)]]"
proof -
  have 1: "py_split (CHR 0x0A) ''Issue: a\<newline>Issue: b\<newline>Line: 7'' = [''Issue: a''] @ ''Issue: b'' # [''Line: 7'']"
    by code_simp
  have 2: "startswith ''Issue: b'' ''Issue:''" by code_simp
  have 3: "\<not> list_ex (\<lambda>x. startswith x ''Issue:'') [''Line: 7'']" by code_simp
  have 4: "fst (extract_issues (Str ''Issue: a\<newline>Issue: b\<newline>Line: 7'')) =
       [[(''description'', PyStr ''a'')], [(''description'', PyStr ''b''), (''line'', PyInt 7)]]"
    by code_simp
  note t = trailing_block_emitted [OF 1 2 3]
  from 1 2 3 t 4 show ?thesis by (intro conjI)
qed

lemma no_issue_line_state:
  "\<not> list_ex (\<lambda>l. startswith l ''Issue:'') ls \<Longrightarrow> foldl scan_line (iss, None) ls = (iss, None)"
  by (induction ls) simp_all

text \<open>
  C7. An input with no line that starts with \<^verbatim>\<open>Issue:\<close> yields no issue (and nothing is
  printed). While no accumulator is open, every line that does not start with \<^verbatim>\<open>Issue:\<close>,
  the \<^verbatim>\<open>Line:\<close> and \<^verbatim>\<open>Suggestion:\<close> lines among them, leaves the state as it is; and a line
  with none of the three prefixes leaves every state as it is.
\<close>

theorem no_issue_line_no_issues:
  "(\<not> list_ex (\<lambda>l. startswith l ''Issue:'') (py_split (CHR 0x0A) s)
      \<longrightarrow> extract_issues (Str s) = ([], []) \<and> issues (fst (parse_response (Str s))) = [])
   \<and> (\<not> startswith l ''Issue:'' \<longrightarrow> scan_line (iss, None) l = (iss, None))
   \<and> (\<not> startswith l ''Issue:'' \<and> \<not> startswith l ''Line:'' \<and> \<not> startswith l ''Suggestion:''
      \<longrightarrow> scan_line (iss, cur) l = (iss, cur))"
  by (simp add: extract_issues_Str scan_lines_def no_issue_line_state parse_response_fields)

theorem no_issue_line_no_issues_witness:
  "\<not> list_ex (\<lambda>l. startswith l ''Issue:'') (py_split (CHR 0x0A) ''hello\<newline>Line: 3\<newline>Suggestion: x\<newline>'')
   \<and> extract_issues (Str ''hello\<newline>Line: 3\<newline>Suggestion: x\<newline>'') = ([], [])
   \<and> issues (fst (parse_response (Str ''hello\<newline>Line: 3\<newline>Suggestion: x\<newline>''))) = []
   \<and> \<not> startswith ''Line: 3'' ''Issue:''
   \<and> scan_line ([], None) ''Line: 3'' = ([], None)
   \<and> \<not> startswith ''hello'' ''Issue:'' \<and> \<not> startswith ''hello'' ''Line:''
   \<and> \<not> startswith ''hello'' ''Suggestion:''
   \<and> scan_line ([], Some [(''description'', PyStr ''a'')]) ''hello''
        = ([], Some [(''description'', PyStr ''a'')])"
proof -
  have 1: "\<not> list_ex (\<lambda>l. startswith l ''Issue:'') (py_split (CHR 0x0A) ''hello\<newline>Line: 3\<newline>Suggestion: x\<newline>'')"
    by code_simp
  have 2: "\<not> startswith ''Line: 3'' ''Issue:''" by code_simp
  have 3: "\<not> startswith ''hello'' ''Issue:''" "\<not> startswith ''hello'' ''Line:''"
    "\<not> startswith ''hello'' ''Suggestion:''" by code_simp+
  note t = no_issue_line_no_issues [of "''hello\<newline>Line: 3\<newline>Suggestion: x\<newline>''" "''Line: 3''" "[]"]
  note u = no_issue_line_no_issues [of "''''" "''hello''" "[]" "Some [(''description'', PyStr ''a'')]"]
  from t 1 have a: "extract_issues (Str ''hello\<newline>Line: 3\<newline>Suggestion: x\<newline>'') = ([], [])"
    "issues (fst (parse_response (Str ''hello\<newline>Line: 3\<newline>Suggestion: x\<newline>''))) = []"
    by blast+
  from t 2 have b: "scan_line ([], None) ''Line: 3'' = ([], None)" by blast
  from u 3 have c: "scan_line ([], Some [(''description'', PyStr ''a'')]) ''hello''
        = ([], Some [(''description'', PyStr ''a'')])" by blast
  from 1 2 3 a b c show ?thesis by (intro conjI)
qed

lemma scan_line_ignored:
  "\<not> startswith l ''Issue:'' \<Longrightarrow> \<not> startswith l ''Line:'' \<Longrightarrow> \<not> startswith l ''Suggestion:''
     \<Longrightarrow> scan_line st l = st"
  by (cases st) simp

lemma startswith_same_length:
  "length q = length p \<Longrightarrow> startswith (q @ rest) p \<longleftrightarrow> q = p"
  by (simp add: startswith_def)

lemma startswith_hd: "startswith (c # t) (c' # p) \<Longrightarrow> c = c'"
  by (simp add: startswith_def)

lemma ascii_lower_initials:
  "ascii_lower (CHR ''I'') = CHR ''i''" "ascii_lower (CHR ''L'') = CHR ''l''"
  "ascii_lower (CHR ''S'') = CHR ''s''"
  by code_simp+

lemma leading_space_ignored:
  assumes "ws \<noteq> []" "list_all isspace ws"
  shows "scan_line st (ws @ t) = st"
proof -
  from assms obtain w ws' where ws: "ws = w # ws'" and w: "isspace w"
    by (cases ws) auto
  have "w \<noteq> CHR ''I''" "w \<noteq> CHR ''L''" "w \<noteq> CHR ''S''"
    using w by (auto simp: isspace_def)
  then show ?thesis
    unfolding ws by (intro scan_line_ignored) (auto dest: startswith_hd)
qed

lemma other_case_ignored:
  assumes "p \<in> set [''Issue:'', ''Line:'', ''Suggestion:'']"
    "map ascii_lower q = map ascii_lower p" "q \<noteq> p"
  shows "scan_line st (q @ rest) = st"
proof -
  from assms(2) have len: "length q = length p" by (rule map_eq_imp_length_eq)
  with assms(3) have self: "\<not> startswith (q @ rest) p"
    by (simp add: startswith_same_length)
  from assms(1) len obtain c q' where q: "q = c # q'" by (cases q) auto
  from assms(2) q have lo: "ascii_lower c = ascii_lower (hd p)"
    by (cases p) auto
  from assms(1) consider "p = ''Issue:''" | "p = ''Line:''" | "p = ''Suggestion:''" by auto
  then show ?thesis
  proof cases
    case 1
    with lo have "c \<noteq> CHR ''L''" "c \<noteq> CHR ''S''" by (auto simp: ascii_lower_initials)
    with self 1 show ?thesis
      unfolding q by (intro scan_line_ignored) (auto dest: startswith_hd)
  next
    case 2
    with lo have "c \<noteq> CHR ''I''" "c \<noteq> CHR ''S''" by (auto simp: ascii_lower_initials)
    with self 2 show ?thesis
      unfolding q by (intro scan_line_ignored) (auto dest: startswith_hd)
  next
    case 3
    with lo have "c \<noteq> CHR ''I''" "c \<noteq> CHR ''L''" by (auto simp: ascii_lower_initials)
    with self 3 show ?thesis
      unfolding q by (intro scan_line_ignored) (auto dest: startswith_hd)
  qed
qed

text \<open>
  C8. Prefix matching is exact. For each of the three prefixes \<open>p\<close>: a line in which \<open>p\<close>
  comes after one or more whitespace characters is ignored (the state is unchanged), and
  so is a line that begins with a text \<open>q\<close> that equals \<open>p\<close> up to letter case but is not \<open>p\<close>.
\<close>

theorem prefix_match_exact:
  assumes "p \<in> set [''Issue:'', ''Line:'', ''Suggestion:'']"
  shows "(ws \<noteq> [] \<and> list_all isspace ws \<longrightarrow> scan_line st (ws @ p @ rest) = st)
     \<and> (map ascii_lower q = map ascii_lower p \<and> q \<noteq> p \<longrightarrow> scan_line st (q @ rest) = st)"
  using assms leading_space_ignored [of ws st "p @ rest"] other_case_ignored [of p q st rest]
  by blast

theorem prefix_match_exact_witness:
  "''Issue:'' \<in> set [''Issue:'', ''Line:'', ''Suggestion:'']
   \<and> ''  '' \<noteq> [] \<and> list_all isspace ''  ''
   \<and> scan_line ([], Some [(''description'', PyStr ''a'')]) (''  '' @ ''Issue:'' @ '' b'')
        = ([], Some [(''description'', PyStr ''a'')])
   \<and> map ascii_lower ''ISSUE:'' = map ascii_lower ''Issue:'' \<and> ''ISSUE:'' \<noteq> ''Issue:''
   \<and> scan_line ([], Some [(''description'', PyStr ''a'')]) (''ISSUE:'' @ '' b'')
        = ([], Some [(''description'', PyStr ''a'')])"
proof -
  have 1: "''Issue:'' \<in> set [''Issue:'', ''Line:'', ''Suggestion:'']" by simp
  have 2: "''  '' \<noteq> []" "list_all isspace ''  ''" by code_simp+
  have 3: "map ascii_lower ''ISSUE:'' = map ascii_lower ''Issue:''" "''ISSUE:'' \<noteq> ''Issue:''"
    by code_simp+
  note t = prefix_match_exact [OF 1, of "''  ''" "([], Some [(''description'', PyStr ''a'')])"
      "'' b''" "''ISSUE:''"]
  from t 2 have a: "scan_line ([], Some [(''description'', PyStr ''a'')]) (''  '' @ ''Issue:'' @ '' b'')
        = ([], Some [(''description'', PyStr ''a'')])" by blast
  from t 3 have b: "scan_line ([], Some [(''description'', PyStr ''a'')]) (''ISSUE:'' @ '' b'')
        = ([], Some [(''description'', PyStr ''a'')])" by blast
  from 1 2 a 3 b show ?thesis by (intro conjI)
qed


subsection \<open>The fields of a block\<close>

text \<open>
  C9. The issue \<open>d\<close> emitted for a block has the key \<^verbatim>\<open>line\<close> exactly when a line of that
  block starts with \<^verbatim>\<open>Line:\<close>; with no such line the key is absent, not present with the
  value 0, whatever the blocks before it contained.
\<close>

theorem line_key_only_with_line_line:
  assumes "block_at (py_split (CHR 0x0A) s) pre l blk rest"
  shows "\<exists>d. fst (extract_issues (Str s)) = scan_lines pre @ [d] @ scan_lines rest
     \<and> map_of d ''description'' = Some (PyStr (py_strip (drop 6 l)))
     \<and> (map_of d ''line'' = None \<longleftrightarrow> \<not> list_ex (\<lambda>x. startswith x ''Line:'') blk)
     \<and> (''line'' \<in> fst ` set d \<longleftrightarrow> list_ex (\<lambda>x. startswith x ''Line:'') blk)"
proof -
  from block_issue [OF assms] obtain d where
    "scan_lines (py_split (CHR 0x0A) s) = scan_lines pre @ [d] @ scan_lines rest"
    "map_of d ''description'' = Some (PyStr (py_strip (drop 6 l)))"
    "map_of d ''line'' =
         (if list_ex (\<lambda>x. startswith x ''Line:'') blk
          then Some (PyInt (line_value (last (filter (\<lambda>x. startswith x ''Line:'') blk))))
          else None)"
    by blast
  moreover from this(3) have "map_of d ''line'' = None \<longleftrightarrow> \<not> list_ex (\<lambda>x. startswith x ''Line:'') blk"
    by simp
  moreover from this have "''line'' \<in> fst ` set d \<longleftrightarrow> list_ex (\<lambda>x. startswith x ''Line:'') blk"
    by (simp add: map_of_eq_None_iff)
  ultimately show ?thesis
    by (auto simp only: extract_issues_Str fst_conv)
qed

theorem line_key_only_with_line_line_witness:
  "block_at (py_split (CHR 0x0A) ''Issue: a\<newline>Line: 3\<newline>Issue: b\<newline>Suggestion: y'')
      [''Issue: a'', ''Line: 3''] ''Issue: b'' [''Suggestion: y''] []
   \<and> (\<exists>d. fst (extract_issues (Str ''Issue: a\<newline>Line: 3\<newline>Issue: b\<newline>Suggestion: y''))
            = scan_lines [''Issue: a'', ''Line: 3''] @ [d] @ scan_lines []
        \<and> map_of d ''description'' = Some (PyStr (py_strip (drop 6 ''Issue: b'')))
        \<and> map_of d ''line'' = None
        \<and> ''line'' \<notin> fst ` set d)
   \<and> fst (extract_issues (Str ''Issue: a\<newline>Line: 3\<newline>Issue: b\<newline>Suggestion: y'')) =
       [[(''description'', PyStr ''a''), (''line'', PyInt 3)],
        [(''description'', PyStr ''b''), (''suggestion'', PyStr ''y'')]]"
proof -
  have 1: "block_at (py_split (CHR 0x0A) ''Issue: a\<newline>Line: 3\<newline>Issue: b\<newline>Suggestion: y'')
      [''Issue: a'', ''Line: 3''] ''Issue: b'' [''Suggestion: y''] []"
    by code_simp
  have 2: "\<not> list_ex (\<lambda>x. startswith x ''Line:'') [''Suggestion: y'']" by code_simp
  have 3: "fst (extract_issues (Str ''Issue: a\<newline>Line: 3\<newline>Issue: b\<newline>Suggestion: y'')) =
       [[(''description'', PyStr ''a''), (''line'', PyInt 3)],
        [(''description'', PyStr ''b''), (''suggestion'', PyStr ''y'')]]"
    by code_simp
  from line_key_only_with_line_line [OF 1] 2
  have "\<exists>d. fst (extract_issues (Str ''Issue: a\<newline>Line: 3\<newline>Issue: b\<newline>Suggestion: y''))
            = scan_lines [''Issue: a'', ''Line: 3''] @ [d] @ scan_lines []
        \<and> map_of d ''description'' = Some (PyStr (py_strip (drop 6 ''Issue: b'')))
        \<and> map_of d ''line'' = None
        \<and> ''line'' \<notin> fst ` set d"
    by blast
  with 1 3 show ?thesis by (intro conjI)
qed

text \<open>
  C10. Within one block, a later \<^verbatim>\<open>Line:\<close> line overwrites the value of an earlier one,
  and likewise for \<^verbatim>\<open>Suggestion:\<close>: the emitted issue \<open>d\<close> carries the value of the last
  \<^verbatim>\<open>Line:\<close> line and of the last \<^verbatim>\<open>Suggestion:\<close> line of the block.
\<close>

theorem last_line_and_suggestion_win:
  assumes "block_at (py_split (CHR 0x0A) s) pre l blk rest"
  shows "\<exists>d. fst (extract_issues (Str s)) = scan_lines pre @ [d] @ scan_lines rest
     \<and> (list_ex (\<lambda>x. startswith x ''Line:'') blk \<longrightarrow>
          map_of d ''line'' =
            Some (PyInt (line_value (last (filter (\<lambda>x. startswith x ''Line:'') blk)))))
     \<and> (list_ex (\<lambda>x. startswith x ''Suggestion:'') blk \<longrightarrow>
          map_of d ''suggestion'' =
            Some (PyStr (py_strip (drop 11
                   (last (filter (\<lambda>x. startswith x ''Suggestion:'') blk))))))"
proof -
  from block_issue [OF assms] obtain d where
    "scan_lines (py_split (CHR 0x0A) s) = scan_lines pre @ [d] @ scan_lines rest"
    "map_of d ''line'' =
         (if list_ex (\<lambda>x. startswith x ''Line:'') blk
          then Some (PyInt (line_value (last (filter (\<lambda>x. startswith x ''Line:'') blk))))
          else None)"
    "map_of d ''suggestion'' =
         (if list_ex (\<lambda>x. startswith x ''Suggestion:'') blk
          then Some (PyStr (py_strip (drop 11
                 (last (filter (\<lambda>x. startswith x ''Suggestion:'') blk)))))
          else None)"
    by blast
  then show ?thesis
    by (intro exI [of _ d]) (simp add: extract_issues_Str)
qed

theorem last_line_and_suggestion_win_witness:
  "block_at (py_split (CHR 0x0A) ''Issue: a\<newline>Line: 1\<newline>Suggestion: x\<newline>Line: 2\<newline>Suggestion: y\<newline>Issue: b'')
      [] ''Issue: a'' [''Line: 1'', ''Suggestion: x'', ''Line: 2'', ''Suggestion: y''] [''Issue: b'']
   \<and> list_ex (\<lambda>x. startswith x ''Line:'') [''Line: 1'', ''Suggestion: x'', ''Line: 2'', ''Suggestion: y'']
   \<and> list_ex (\<lambda>x. startswith x ''Suggestion:'') [''Line: 1'', ''Suggestion: x'', ''Line: 2'', ''Suggestion: y'']
   \<and> (\<exists>d. fst (extract_issues (Str ''Issue: a\<newline>Line: 1\<newline>Suggestion: x\<newline>Line: 2\<newline>Suggestion: y\<newline>Issue: b''))
            = scan_lines [] @ [d] @ scan_lines [''Issue: b'']
        \<and> map_of d ''line'' = Some (PyInt (line_value (last (filter (\<lambda>x. startswith x ''Line:'')
              [''Line: 1'', ''Suggestion: x'', ''Line: 2'', ''Suggestion: y'']))))
        \<and> map_of d ''suggestion'' = Some (PyStr (py_strip (drop 11
              (last (filter (\<lambda>x. startswith x ''Suggestion:'')
                 [''Line: 1'', ''Suggestion: x'', ''Line: 2'', ''Suggestion: y'']))))))
   \<and> fst (extract_issues (Str ''Issue: a\<newline>Line: 1\<newline>Suggestion: x\<newline>Line: 2\<newline>Suggestion: y\<newline>Issue: b'')) =
       [[(''description'', PyStr ''a''), (''line'', PyInt 2), (''suggestion'', PyStr ''y'')],
        [(''description'', PyStr ''b'')]]"
proof -
  have 1: "block_at (py_split (CHR 0x0A) ''Issue: a\<newline>Line: 1\<newline>Suggestion: x\<newline>Line: 2\<newline>Suggestion: y\<newline>Issue: b'')
      [] ''Issue: a'' [''Line: 1'', ''Suggestion: x'', ''Line: 2'', ''Suggestion: y''] [''Issue: b'']"
    by code_simp
  have 2: "list_ex (\<lambda>x. startswith x ''Line:'') [''Line: 1'', ''Suggestion: x'', ''Line: 2'', ''Suggestion: y'']"
    by code_simp
  have 3: "list_ex (\<lambda>x. startswith x ''Suggestion:'') [''Line: 1'', ''Suggestion: x'', ''Line: 2'', ''Suggestion: y'']"
    by code_simp
  have 4: "fst (extract_issues (Str ''Issue: a\<newline>Line: 1\<newline>Suggestion: x\<newline>Line: 2\<newline>Suggestion: y\<newline>Issue: b'')) =
       [[(''description'', PyStr ''a''), (''line'', PyInt 2), (''suggestion'', PyStr ''y'')],
        [(''description'', PyStr ''b'')]]"
    by code_simp
  from last_line_and_suggestion_win [OF 1] 2 3
  have "\<exists>d. fst (extract_issues (Str ''Issue: a\<newline>Line: 1\<newline>Suggestion: x\<newline>Line: 2\<newline>Suggestion: y\<newline>Issue: b''))
            = scan_lines [] @ [d] @ scan_lines [''Issue: b'']
        \<and> map_of d ''line'' = Some (PyInt (line_value (last (filter (\<lambda>x. startswith x ''Line:'')
              [''Line: 1'', ''Suggestion: x'', ''Line: 2'', ''Suggestion: y'']))))
        \<and> map_of d ''suggestion'' = Some (PyStr (py_strip (drop 11
              (last (filter (\<lambda>x. startswith x ''Suggestion:'')
                 [''Line: 1'', ''Suggestion: x'', ''Line: 2'', ''Suggestion: y''])))))"
    by blast
  with 1 2 3 4 show ?thesis by (intro conjI)
qed

lemma line_value_fallback:
  "py_int (py_strip (drop 5 ln)) = None \<Longrightarrow> line_value ln = 0"
  by (simp add: line_value_def)

text \<open>
  C4, as stated, fails: a \<^verbatim>\<open>Line:\<close> line that does not parse sets \<^verbatim>\<open>line\<close> to 0, but a later
  \<^verbatim>\<open>Line:\<close> line of the same block overwrites it. For the input
  \<^verbatim>\<open>"Issue: foo\nLine: notanumber\nLine: 5\n"\<close> the resulting issue has line 5.
\<close>

theorem later_line_overwrites_zero:
  "startswith ''Line: notanumber'' ''Line:''
   \<and> py_int (py_strip (drop 5 ''Line: notanumber'')) = None
   \<and> py_split (CHR 0x0A) ''Issue: foo\<newline>Line: notanumber\<newline>Line: 5\<newline>''
       = [''Issue: foo'', ''Line: notanumber'', ''Line: 5'', []]
   \<and> parse_response (Str ''Issue: foo\<newline>Line: notanumber\<newline>Line: 5\<newline>'') =
       (\<lparr>issues = [[(''description'', PyStr ''foo''), (''line'', PyInt 5)]],
         suggestions = [], complexity_score = 0\<rparr>, [])
   \<and> map_of (hd (issues (fst (parse_response
          (Str ''Issue: foo\<newline>Line: notanumber\<newline>Line: 5\<newline>''))))) ''line'' \<noteq> Some (PyInt 0)"
  by code_simp

text \<open>
  C4, amended. In a block whose line \<open>ln\<close> starts with \<^verbatim>\<open>Line:\<close>, with a remainder that
  \<^verbatim>\<open>int\<close> rejects, and with no later \<^verbatim>\<open>Line:\<close> line in the same block (\<open>b2\<close>), the emitted
  issue \<open>d\<close> has line 0. The failure is handled at that line (it sets \<^verbatim>\<open>line\<close> to 0 in the
  open accumulator), the scan goes on (a later \<^verbatim>\<open>Suggestion:\<close> line of the block is recorded,
  the blocks after it are emitted), and nothing is printed: the outer handler is not
  reached.
\<close>

theorem bad_line_number_is_zero:
  assumes "block_at (py_split (CHR 0x0A) s) pre l (b1 @ ln # b2) rest"
    "startswith ln ''Line:''" "py_int (py_strip (drop 5 ln)) = None"
    "\<not> list_ex (\<lambda>x. startswith x ''Line:'') b2"
  shows "\<exists>d. extract_issues (Str s) = (scan_lines pre @ [d] @ scan_lines rest, [])
     \<and> map_of d ''line'' = Some (PyInt 0)
     \<and> (list_ex (\<lambda>x. startswith x ''Suggestion:'') b2 \<longrightarrow>
          map_of d ''suggestion'' =
            Some (PyStr (py_strip (drop 11
                   (last (filter (\<lambda>x. startswith x ''Suggestion:'') b2))))))
     \<and> (\<forall>iss d0. d0 \<noteq> [] \<longrightarrow>
          scan_line (iss, Some d0) ln = (iss, Some (AList.update ''line'' (PyInt 0) d0)))"
proof -
  have ni: "\<not> startswith ln ''Issue:''"
    using assms(2) by (auto dest!: startswith_Cons)
  have ns: "\<not> startswith ln ''Suggestion:''"
    using assms(2) by (auto dest!: startswith_Cons)
  have zero: "line_value ln = 0" using assms(3) by (rule line_value_fallback)
  have lastl: "last (filter (\<lambda>x. startswith x ''Line:'') (b1 @ ln # b2)) = ln"
    using assms(2,4) by (simp add: list_ex_iff filter_empty_conv)
  have lasts: "list_ex (\<lambda>x. startswith x ''Suggestion:'') b2 \<Longrightarrow>
      last (filter (\<lambda>x. startswith x ''Suggestion:'') (b1 @ ln # b2))
       = last (filter (\<lambda>x. startswith x ''Suggestion:'') b2)"
    using ns by (simp add: list_ex_iff filter_empty_conv)
  from block_issue [OF assms(1)] obtain d where
    a: "scan_lines (py_split (CHR 0x0A) s) = scan_lines pre @ [d] @ scan_lines rest"
    and b: "map_of d ''line'' =
         (if list_ex (\<lambda>x. startswith x ''Line:'') (b1 @ ln # b2)
          then Some (PyInt (line_value (last (filter (\<lambda>x. startswith x ''Line:'') (b1 @ ln # b2)))))
          else None)"
    and c: "map_of d ''suggestion'' =
         (if list_ex (\<lambda>x. startswith x ''Suggestion:'') (b1 @ ln # b2)
          then Some (PyStr (py_strip (drop 11
                 (last (filter (\<lambda>x. startswith x ''Suggestion:'') (b1 @ ln # b2))))))
          else None)"
    by blast
  have 1: "extract_issues (Str s) = (scan_lines pre @ [d] @ scan_lines rest, [])"
    using a by (simp add: extract_issues_Str)
  have 2: "map_of d ''line'' = Some (PyInt 0)"
    using b assms(2) zero unfolding lastl by simp
  have 3: "list_ex (\<lambda>x. startswith x ''Suggestion:'') b2 \<longrightarrow>
          map_of d ''suggestion'' =
            Some (PyStr (py_strip (drop 11
                   (last (filter (\<lambda>x. startswith x ''Suggestion:'') b2)))))"
    using c lasts by auto
  have 4: "\<forall>iss d0. d0 \<noteq> [] \<longrightarrow>
          scan_line (iss, Some d0) ln = (iss, Some (AList.update ''line'' (PyInt 0) d0))"
    using ni assms(2) zero by simp
  from 1 2 3 4 show ?thesis by blast
qed

theorem bad_line_number_is_zero_witness:
  "block_at (py_split (CHR 0x0A) ''Issue: foo\<newline>Line: notanumber\<newline>Suggestion: s\<newline>Issue: g'')
      [] ''Issue: foo'' ([] @ ''Line: notanumber'' # [''Suggestion: s'']) [''Issue: g'']
   \<and> startswith ''Line: notanumber'' ''Line:''
   \<and> py_int (py_strip (drop 5 ''Line: notanumber'')) = None
   \<and> \<not> list_ex (\<lambda>x. startswith x ''Line:'') [''Suggestion: s'']
   \<and> list_ex (\<lambda>x. startswith x ''Suggestion:'') [''Suggestion: s'']
   \<and> (\<exists>d. extract_issues (Str ''Issue: foo\<newline>Line: notanumber\<newline>Suggestion: s\<newline>Issue: g'')
            = (scan_lines [] @ [d] @ scan_lines [''Issue: g''], [])
        \<and> map_of d ''line'' = Some (PyInt 0)
        \<and> map_of d ''suggestion'' = Some (PyStr (py_strip (drop 11
              (last (filter (\<lambda>x. startswith x ''Suggestion:'') [''Suggestion: s''])))))
        \<and> scan_line ([], Some [(''description'', PyStr ''foo'')]) ''Line: notanumber'' =
            ([], Some (AList.update ''line'' (PyInt 0) [(''description'', PyStr ''foo'')])))
   \<and> extract_issues (Str ''Issue: foo\<newline>Line: notanumber\<newline>Suggestion: s\<newline>Issue: g'') =
       ([[(''description'', PyStr ''foo''), (''line'', PyInt 0), (''suggestion'', PyStr ''s'')],
         [(''description'', PyStr ''g'')]], [])"
proof -
  have 1: "block_at (py_split (CHR 0x0A) ''Issue: foo\<newline>Line: notanumber\<newline>Suggestion: s\<newline>Issue: g'')
      [] ''Issue: foo'' ([] @ ''Line: notanumber'' # [''Suggestion: s'']) [''Issue: g'']"
    by code_simp
  have 2: "startswith ''Line: notanumber'' ''Line:''" by code_simp
  have 3: "py_int (py_strip (drop 5 ''Line: notanumber'')) = None" by code_simp
  have 4: "\<not> list_ex (\<lambda>x. startswith x ''Line:'') [''Suggestion: s'']" by code_simp
  have 5: "list_ex (\<lambda>x. startswith x ''Suggestion:'') [''Suggestion: s'']" by code_simp
  have 6: "extract_issues (Str ''Issue: foo\<newline>Line: notanumber\<newline>Suggestion: s\<newline>Issue: g'') =
       ([[(''description'', PyStr ''foo''), (''line'', PyInt 0), (''suggestion'', PyStr ''s'')],
         [(''description'', PyStr ''g'')]], [])"
    by code_simp
  have 7: "[(''description'', PyStr ''foo'')] \<noteq> []" by simp
  from bad_line_number_is_zero [OF 1 2 3 4] 5 7
  have "\<exists>d. extract_issues (Str ''Issue: foo\<newline>Line: notanumber\<newline>Suggestion: s\<newline>Issue: g'')
            = (scan_lines [] @ [d] @ scan_lines [''Issue: g''], [])
        \<and> map_of d ''line'' = Some (PyInt 0)
        \<and> map_of d ''suggestion'' = Some (PyStr (py_strip (drop 11
              (last (filter (\<lambda>x. startswith x ''Suggestion:'') [''Suggestion: s''])))))
        \<and> scan_line ([], Some [(''description'', PyStr ''foo'')]) ''Line: notanumber'' =
            ([], Some (AList.update ''line'' (PyInt 0) [(''description'', PyStr ''foo'')]))"
    by blast
  with 1 2 3 4 5 6 show ?thesis by (intro conjI)
qed

end
